theory Spec2Isabelle
  imports Main "HOL-Library.Word" "HOL-Library.Multiset"
begin

section \<open>The intermediate representation seen by StoreMerging.cpp\<close>

text \<open>
  An IR value is identified by its address; the model uses a number for it.
\<close>

type_synonym ref = nat

datatype ty =
    IntegerTy nat
  | HalfTy
  | BFloatTy
  | FloatTy
  | DoubleTy
  | PointerTy
  | VectorTy ty nat
  | ArrayTy ty nat

text \<open>
  Modelled from the spec: the type queries of llvm::Type (the IR library is not among the
  sources). \<open>isFloatTy\<close> is the query for the 32-bit \<open>float\<close> type only;
  \<open>isFloatingPointTy\<close> is the query for any floating-point type.
\<close>

fun isFloatTy :: "ty \<Rightarrow> bool" where
  "isFloatTy FloatTy = True"
| "isFloatTy _ = False"

fun isVectorTy :: "ty \<Rightarrow> bool" where
  "isVectorTy (VectorTy _ _) = True"
| "isVectorTy _ = False"

fun isPointerTy :: "ty \<Rightarrow> bool" where
  "isPointerTy PointerTy = True"
| "isPointerTy _ = False"

fun isIntegerTy :: "ty \<Rightarrow> bool" where
  "isIntegerTy (IntegerTy _) = True"
| "isIntegerTy _ = False"

fun isFloatingPointTy :: "ty \<Rightarrow> bool" where
  "isFloatingPointTy HalfTy = True"
| "isFloatingPointTy BFloatTy = True"
| "isFloatingPointTy FloatTy = True"
| "isFloatingPointTy DoubleTy = True"
| "isFloatingPointTy _ = False"

text \<open>
  The natural bit width of a scalar type (16 for half, 32 for float, ...); 0 for the
  types that have none.
\<close>

fun getScalarSizeInBits :: "ty \<Rightarrow> nat" where
  "getScalarSizeInBits (IntegerTy n) = n"
| "getScalarSizeInBits HalfTy = 16"
| "getScalarSizeInBits BFloatTy = 16"
| "getScalarSizeInBits FloatTy = 32"
| "getScalarSizeInBits DoubleTy = 64"
| "getScalarSizeInBits PointerTy = 32"
| "getScalarSizeInBits _ = 0"

text \<open>
  Value operands. The first four constructors are compile-time constants, a
  \<open>Register\<close> is an argument or the result of an instruction, and the last five are
  what the IR builder creates: a constant expression when the operands are constants, an
  instruction otherwise.
\<close>

datatype val =
    ConstantInt nat nat
  | ConstantFP ty nat
  | ConstantPointerNull
  | GlobalAddress ref
  | Register ref ty
  | PtrToInt val ty
  | BitCast val ty
  | ZExt val ty
  | Shl val nat
  | Add val val

fun getType :: "val \<Rightarrow> ty" where
  "getType (ConstantInt w n) = IntegerTy w"
| "getType (ConstantFP t n) = t"
| "getType ConstantPointerNull = PointerTy"
| "getType (GlobalAddress g) = PointerTy"
| "getType (Register r t) = t"
| "getType (PtrToInt v t) = t"
| "getType (BitCast v t) = t"
| "getType (ZExt v t) = t"
| "getType (Shl v k) = getType v"
| "getType (Add v w) = getType v"

text \<open>\<open>dyn_cast<Constant>\<close> succeeds on constants and on constant expressions.\<close>

fun isConstant :: "val \<Rightarrow> bool" where
  "isConstant (ConstantInt w n) = True"
| "isConstant (ConstantFP t n) = True"
| "isConstant ConstantPointerNull = True"
| "isConstant (GlobalAddress g) = True"
| "isConstant (Register r t) = False"
| "isConstant (PtrToInt v t) = isConstant v"
| "isConstant (BitCast v t) = isConstant v"
| "isConstant (ZExt v t) = isConstant v"
| "isConstant (Shl v k) = isConstant v"
| "isConstant (Add v w) = (isConstant v \<and> isConstant w)"

fun isNullValue :: "val \<Rightarrow> bool" where
  "isNullValue (ConstantInt w n) = (n mod 2 ^ w = 0)"
| "isNullValue (ConstantFP t n) = (n = 0)"
| "isNullValue ConstantPointerNull = True"
| "isNullValue _ = False"


text \<open>
  Pointer operands, as findBasePointerAndOffset looks at them: an element-address
  instruction, a pointer reinterpretation, or any other pointer value. An index of an
  element-address instruction is a constant or not; \<open>partialOffset\<close> (Utility.h, not among
  the sources) turns a constant index into bytes, and a constant index carries the bytes
  it yields.
\<close>

datatype gep_index = ConstantIndex "32 word" | VariableIndex

datatype ptr =
    PointerValue ref
  | GetElementPtrInst ref ptr "gep_index list"
  | BitCastInst ptr

record StoreInst =
  storeId :: ref
  pointerOperand :: ptr
  valueOperand :: val
  align :: nat

text \<open>
  An instruction of a basic block: a store, an instruction the builder inserted (it
  computes a value or reinterprets a pointer, and touches no memory), or any other
  instruction, of which the pass reads \<open>mayReadOrWriteMemory\<close> and
  \<open>mayHaveSideEffects\<close> only.
\<close>

datatype Instruction =
    Store StoreInst
  | Computed val
  | ComputedPtr ptr
  | Other string bool bool

fun mayReadOrWriteMemory :: "Instruction \<Rightarrow> bool" where
  "mayReadOrWriteMemory (Store s) = True"
| "mayReadOrWriteMemory (Computed v) = False"
| "mayReadOrWriteMemory (ComputedPtr p) = False"
| "mayReadOrWriteMemory (Other n m e) = m"

fun mayHaveSideEffects :: "Instruction \<Rightarrow> bool" where
  "mayHaveSideEffects (Store s) = True"
| "mayHaveSideEffects (Computed v) = False"
| "mayHaveSideEffects (ComputedPtr p) = False"
| "mayHaveSideEffects (Other n m e) = e"

type_synonym BasicBlock = "Instruction list"

record Function =
  getSection :: string
  blocks :: "BasicBlock list"

text \<open>
  The pass object: the data layout, of which the pass calls \<open>getTypeAllocSize\<close> (bytes),
  and the flag of the wider target.
\<close>

record StoreMerging =
  getTypeAllocSize :: "ty \<Rightarrow> nat"
  isWasm :: bool

subsection \<open>The IR builder\<close>

text \<open>
  Modelled from the spec: the IR builder (llvm/IR/IRBuilder.h, not among the sources).
  Each operation gives the value and the instructions it inserts: none when the operand
  is a constant (the result is then a constant, folded when the operand is an integer
  constant), the new instruction otherwise.
\<close>

fun CreatePtrToInt :: "val \<Rightarrow> ty \<Rightarrow> val \<times> Instruction list" where
  "CreatePtrToInt ConstantPointerNull t = (ConstantInt (getScalarSizeInBits t) 0, [])"
| "CreatePtrToInt v t =
     (if isConstant v then (PtrToInt v t, []) else (PtrToInt v t, [Computed (PtrToInt v t)]))"

definition CreateBitCast :: "val \<Rightarrow> ty \<Rightarrow> val \<times> Instruction list" where
  "CreateBitCast v t =
     (if getType v = t then (v, [])
      else if isConstant v then (BitCast v t, [])
      else (BitCast v t, [Computed (BitCast v t)]))"

fun CreateZExt :: "val \<Rightarrow> ty \<Rightarrow> val \<times> Instruction list" where
  "CreateZExt (ConstantInt w n) t = (ConstantInt (getScalarSizeInBits t) (n mod 2 ^ w), [])"
| "CreateZExt v t =
     (if isConstant v then (ZExt v t, []) else (ZExt v t, [Computed (ZExt v t)]))"

fun CreateShl :: "val \<Rightarrow> nat \<Rightarrow> val \<times> Instruction list" where
  "CreateShl (ConstantInt w n) k = (ConstantInt w ((n * 2 ^ k) mod 2 ^ w), [])"
| "CreateShl v k =
     (if isConstant v then (Shl v k, []) else (Shl v k, [Computed (Shl v k)]))"

fun CreateAdd :: "val \<Rightarrow> val \<Rightarrow> val \<times> Instruction list" where
  "CreateAdd (ConstantInt w n) (ConstantInt w' m) = (ConstantInt w ((n + m) mod 2 ^ w), [])"
| "CreateAdd v u =
     (if isConstant v \<and> isConstant u then (Add v u, [])
      else (Add v u, [Computed (Add v u)]))"

text \<open>
  The builder inserts before the store it was created on (\<open>IRBuilder<> builder(lowStore)\<close>),
  and \<open>eraseFromParent\<close> removes a store from its block.
\<close>

fun isStore :: "ref \<Rightarrow> Instruction \<Rightarrow> bool" where
  "isStore r (Store s) = (storeId s = r)"
| "isStore r _ = False"

fun insertBefore :: "ref \<Rightarrow> Instruction list \<Rightarrow> BasicBlock \<Rightarrow> BasicBlock" where
  "insertBefore r new [] = []"
| "insertBefore r new (I # bb) =
     (if isStore r I then new @ I # bb else I # insertBefore r new bb)"

definition eraseFromParent :: "ref \<Rightarrow> BasicBlock \<Rightarrow> BasicBlock" where
  "eraseFromParent r bb = filter (\<lambda>I. \<not> isStore r I) bb"

text \<open>A new instruction gets an identity that no store of the block has.\<close>

fun storeIds :: "BasicBlock \<Rightarrow> ref list" where
  "storeIds [] = []"
| "storeIds (Store s # bb) = storeId s # storeIds bb"
| "storeIds (_ # bb) = storeIds bb"

definition newRef :: "BasicBlock \<Rightarrow> ref" where
  "newRef bb = Suc (fold max (storeIds bb) 0)"

section \<open>StoreMerging.cpp\<close>

text \<open>
  The record of a store in a run. Its declaration is in StoreMerging.h (not among the
  sources); the fields are as StoreMerging.cpp uses them: \<open>offset\<close> is the \<open>int\<close> that
  findBasePointerAndOffset returns (a 32-bit word, read as signed where the code compares
  it as signed), \<open>size\<close> and \<open>blockIndex\<close> are unsigned 32-bit integers, as the \<open>dim\<close>
  they are compared with and assigned from. The field \<open>store\<close> points to a store
  instruction, which never changes once created: the model keeps the instruction itself.
\<close>

record StoreAndOffset =
  store :: StoreInst
  size' :: "32 word"
  offset :: "32 word"
  blockIndex :: "32 word"

subsection \<open>findBasePointerAndOffset\<close>

fun gepOffset :: "gep_index \<Rightarrow> 32 word" where
  "gepOffset (ConstantIndex k) = k"
| "gepOffset VariableIndex = 0"

fun hasAllConstantIndices :: "gep_index list \<Rightarrow> bool" where
  "hasAllConstantIndices [] = True"
| "hasAllConstantIndices (ConstantIndex k # is) = hasAllConstantIndices is"
| "hasAllConstantIndices (VariableIndex # is) = False"

text \<open>The \<open>while (true)\<close> loop, with \<open>totalOffset\<close> as its accumulator.\<close>

fun findBase :: "ptr \<Rightarrow> 32 word \<Rightarrow> ptr \<times> 32 word" where
  "findBase (GetElementPtrInst r p is) totalOffset =
     (if hasAllConstantIndices is
      then findBase p (fold (\<lambda>i t. t + gepOffset i) is totalOffset)
      else (GetElementPtrInst r p is, totalOffset))"
| "findBase (BitCastInst p) totalOffset = findBase p totalOffset"
| "findBase (PointerValue r) totalOffset = (PointerValue r, totalOffset)"

definition findBasePointerAndOffset :: "ptr \<Rightarrow> ptr \<times> 32 word" where
  "findBasePointerAndOffset pointer = findBase pointer 0"

subsection \<open>sortStores and filterAlreadyProcessedStores\<close>

text \<open>
  \<open>std::sort\<close> is the C++ library's: the model takes it as a parameter \<open>srt\<close>, called with
  the comparator of the source.
\<close>

type_synonym sorter =
  "(StoreAndOffset \<Rightarrow> StoreAndOffset \<Rightarrow> bool) \<Rightarrow> StoreAndOffset list \<Rightarrow> StoreAndOffset list"

definition offsetLess :: "StoreAndOffset \<Rightarrow> StoreAndOffset \<Rightarrow> bool" where
  "offsetLess left right = (offset left <s offset right)"

definition sortStores :: "sorter \<Rightarrow> StoreAndOffset list \<Rightarrow> StoreAndOffset list" where
  "sortStores srt groupedSamePointer = srt offsetLess groupedSamePointer"

definition filterAlreadyProcessedStores :: "StoreAndOffset list \<Rightarrow> StoreAndOffset list" where
  "filterAlreadyProcessedStores groupedSamePointer =
     filter (\<lambda>r. size' r \<noteq> 0) groupedSamePointer"

subsection \<open>processBlockOfStores(dim, groupedSamePointer): the executor\<close>

datatype STRATEGY = NOT_CONVENIENT | CONSTANT | ZERO_EXTEND

definition chooseStrategy :: "val \<Rightarrow> val \<Rightarrow> STRATEGY" where
  "chooseStrategy lowValue highValue =
     (if isConstant lowValue \<and> isConstant highValue then CONSTANT
      else if isConstant highValue \<and> isNullValue highValue then ZERO_EXTEND
      else NOT_CONVENIENT)"

text \<open>
  The \<open>continue\<close>s of the loop body, in the order of the source: the pair \<open>(a, b)\<close> is
  left as it is when one of them holds.
\<close>

definition skipPair :: "StoreMerging \<Rightarrow> 32 word \<Rightarrow> StoreAndOffset \<Rightarrow> StoreAndOffset \<Rightarrow> bool" where
  "skipPair P dim ra rb =
     (size' ra \<noteq> dim \<or>
      size' rb \<noteq> dim \<or>
      dim + offset ra \<noteq> offset rb \<or>
      (\<not> isWasm P \<and> (of_nat (align (store ra)) :: 32 word) < dim * 2) \<or>
      (isFloatTy (getType (valueOperand (store ra))) \<or>
       isVectorTy (getType (valueOperand (store ra)))) \<or>
      (isFloatTy (getType (valueOperand (store rb))) \<or>
       isVectorTy (getType (valueOperand (store rb)))) \<or>
      chooseStrategy (valueOperand (store ra)) (valueOperand (store rb)) = NOT_CONVENIENT)"

text \<open>The lambda \<open>convertToBigType\<close>.\<close>

definition convertToBigType ::
  "StoreMerging \<Rightarrow> ty \<Rightarrow> ty \<Rightarrow> val \<Rightarrow> val \<times> Instruction list" where
  "convertToBigType P bigType int32Type v =
     (let asInteger =
        (if isPointerTy (getType v) then CreatePtrToInt v int32Type
         else if \<not> isIntegerTy (getType v) then
           (let integerEquivalent =
              IntegerTy (unat (of_nat (getTypeAllocSize P (getType v)) :: 32 word))
            in CreateBitCast v integerEquivalent)
         else (v, []));
          extended =
        (if getType (fst asInteger) \<noteq> bigType then CreateZExt (fst asInteger) bigType
         else (fst asInteger, []))
      in (fst extended, snd asInteger @ snd extended))"

text \<open>
  The value \<open>sum\<close> of the new store and the instructions its computation inserts;
  \<open>None\<close> is the \<open>assert(false)\<close> of the source.
\<close>

definition mergedValue ::
  "StoreMerging \<Rightarrow> 32 word \<Rightarrow> STRATEGY \<Rightarrow> val \<Rightarrow> val \<Rightarrow> (val \<times> Instruction list) option" where
  "mergedValue P dim strategy lowValue highValue =
     (let bigType = IntegerTy (unat (dim * 16)); int32Type = IntegerTy 32 in
      if strategy = CONSTANT \<or> strategy = ZERO_EXTEND then
        (let low = convertToBigType P bigType int32Type lowValue in
         if strategy = CONSTANT then
           (let high = convertToBigType P bigType int32Type highValue;
                shiftToHigh = CreateShl (fst high) (unat (dim * 8));
                added = CreateAdd (fst low) (fst shiftToHigh)
            in Some (fst added, snd low @ snd high @ snd shiftToHigh @ snd added))
         else Some low)
      else None)"

text \<open>
  The rest of the loop body: the new store is created before the low store, the two
  stores are erased, and the two records are updated.
\<close>

definition mergeStores ::
  "StoreMerging \<Rightarrow> 32 word \<Rightarrow> StoreAndOffset \<Rightarrow> StoreAndOffset \<Rightarrow> BasicBlock \<Rightarrow>
   (StoreAndOffset \<times> StoreAndOffset \<times> BasicBlock) option" where
  "mergeStores P dim ra rb bb =
     (let lowStore = store ra; highStore = store rb;
          alignment = (of_nat (align lowStore) :: 32 word);
          lowValue = valueOperand lowStore; highValue = valueOperand highStore;
          strategy = chooseStrategy lowValue highValue
      in case mergedValue P dim strategy lowValue highValue of
           None \<Rightarrow> None
         | Some (sumv, new) \<Rightarrow>
             (let bitcast = BitCastInst (pointerOperand lowStore);
                  biggerStore = \<lparr>storeId = newRef bb, pointerOperand = bitcast,
                                 valueOperand = sumv, align = unat alignment\<rparr>;
                  bb1 = insertBefore (storeId lowStore)
                          (new @ [ComputedPtr bitcast, Store biggerStore]) bb;
                  bb2 = eraseFromParent (storeId lowStore) bb1;
                  bb3 = eraseFromParent (storeId highStore) bb2
              in Some (ra\<lparr>store := biggerStore, size' := dim * 2\<rparr>, rb\<lparr>size' := 0\<rparr>, bb3)))"

text \<open>
  The loop \<open>for (i = 0; i + 1 < N; i++)\<close>: a skipped pair goes on at \<open>i + 1\<close>, a merged
  pair sets \<open>i = b\<close> and goes on at \<open>b + 1\<close>.
\<close>

function processLoop ::
  "StoreMerging \<Rightarrow> 32 word \<Rightarrow> nat \<Rightarrow> nat \<Rightarrow> StoreAndOffset list \<Rightarrow> BasicBlock \<Rightarrow> bool \<Rightarrow>
   (bool \<times> StoreAndOffset list \<times> BasicBlock) option" where
  "processLoop P dim N i g bb Changed =
     (if i + 1 < N then
        (if skipPair P dim (g ! i) (g ! (i + 1)) then processLoop P dim N (i + 1) g bb Changed
         else case mergeStores P dim (g ! i) (g ! (i + 1)) bb of
                None \<Rightarrow> None
              | Some (ra, rb, bb') \<Rightarrow>
                  processLoop P dim N (i + 2) (g[i := ra, i + 1 := rb]) bb' True)
      else Some (Changed, g, bb))"
  by pat_completeness auto
termination
  by (relation "measure (\<lambda>(P, dim, N, i, g, bb, Changed). N - i)") auto

declare processLoop.simps [simp del]

definition processBlockOfStoresDim ::
  "StoreMerging \<Rightarrow> 32 word \<Rightarrow> StoreAndOffset list \<Rightarrow> BasicBlock \<Rightarrow>
   (bool \<times> StoreAndOffset list \<times> BasicBlock) option" where
  "processBlockOfStoresDim P dim groupedSamePointer bb =
     processLoop P dim (length groupedSamePointer) 0 groupedSamePointer bb False"

subsection \<open>processBlockOfStores(groupedSamePointer): the planner\<close>

definition hasOverlap :: "StoreAndOffset list \<Rightarrow> bool" where
  "hasOverlap g =
     fold (\<lambda>i overlap. if offset (g ! i) + size' (g ! i) > offset (g ! (i + 1)) then True
                        else overlap)
       [0 ..< length g - 1] False"

definition processBlockOfStores ::
  "sorter \<Rightarrow> StoreMerging \<Rightarrow> StoreAndOffset list \<Rightarrow> BasicBlock \<Rightarrow>
   (bool \<times> StoreAndOffset list \<times> BasicBlock) option" where
  "processBlockOfStores srt P groupedSamePointer bb =
     (if length groupedSamePointer < 2 then Some (False, groupedSamePointer, bb)
      else
        (let g0 = sortStores srt groupedSamePointer in
         if hasOverlap g0 then Some (False, g0, bb)
         else case processBlockOfStoresDim P 1 g0 bb of
           None \<Rightarrow> None
         | Some (c1, g1, bb1) \<Rightarrow>
             (case processBlockOfStoresDim P 2 (filterAlreadyProcessedStores g1) bb1 of
                None \<Rightarrow> None
              | Some (c2, g2, bb2) \<Rightarrow>
                  if \<not> isWasm P then Some (c1 \<or> c2, filterAlreadyProcessedStores g2, bb2)
                  else
                    (case processBlockOfStoresDim P 4 (filterAlreadyProcessedStores g2) bb2 of
                       None \<Rightarrow> None
                     | Some (c4, g3, bb3) \<Rightarrow>
                         Some (c1 \<or> c2 \<or> c4, filterAlreadyProcessedStores g3, bb3)))))"

subsection \<open>runOnBasicBlock and runOnFunction\<close>

definition newRecord :: "StoreMerging \<Rightarrow> StoreInst \<Rightarrow> 32 word \<Rightarrow> nat \<Rightarrow> StoreAndOffset" where
  "newRecord P SI off n =
     \<lparr>store = SI, size' = of_nat (getTypeAllocSize P (getType (valueOperand SI))),
      offset = off, blockIndex = of_nat n\<rparr>"

text \<open>
  The loop over the instructions of the block. The state is \<open>currentPtr\<close> (\<open>None\<close> for
  \<open>nullptr\<close>), \<open>basedOnCurrentPtr\<close>, \<open>Changed\<close> and the block, which the planner changes
  before the instruction the loop is at.
\<close>

fun runLoop ::
  "sorter \<Rightarrow> StoreMerging \<Rightarrow> Instruction list \<Rightarrow>
   ptr option \<Rightarrow> StoreAndOffset list \<Rightarrow> bool \<Rightarrow> BasicBlock \<Rightarrow>
   (ptr option \<times> StoreAndOffset list \<times> bool \<times> BasicBlock) option" where
  "runLoop srt P [] currentPtr basedOnCurrentPtr Changed bb =
     Some (currentPtr, basedOnCurrentPtr, Changed, bb)"
| "runLoop srt P (Store SI # rest) currentPtr basedOnCurrentPtr Changed bb =
     (let pair = findBasePointerAndOffset (pointerOperand SI);
          currentPtr1 = (if currentPtr = None then Some (fst pair) else currentPtr)
      in if currentPtr1 \<noteq> Some (fst pair) then
           (case processBlockOfStores srt P basedOnCurrentPtr bb of
              None \<Rightarrow> None
            | Some (c, g, bb') \<Rightarrow>
                runLoop srt P rest (Some (fst pair)) [newRecord P SI (snd pair) 0]
                  (Changed \<or> c) bb')
         else runLoop srt P rest (Some (fst pair))
                (basedOnCurrentPtr @ [newRecord P SI (snd pair) (length basedOnCurrentPtr)])
                Changed bb)"
| "runLoop srt P (I # rest) currentPtr basedOnCurrentPtr Changed bb =
     (if mayReadOrWriteMemory I \<or> mayHaveSideEffects I then
        (case processBlockOfStores srt P basedOnCurrentPtr bb of
           None \<Rightarrow> None
         | Some (c, g, bb') \<Rightarrow> runLoop srt P rest None [] (Changed \<or> c) bb')
      else runLoop srt P rest currentPtr basedOnCurrentPtr Changed bb)"

definition runOnBasicBlock ::
  "sorter \<Rightarrow> StoreMerging \<Rightarrow> string \<Rightarrow> BasicBlock \<Rightarrow> (bool \<times> BasicBlock) option" where
  "runOnBasicBlock srt P sect BB =
     (if sect \<noteq> ''asmjs'' then Some (False, BB)
      else case runLoop srt P BB None [] False BB of
        None \<Rightarrow> None
      | Some (currentPtr, basedOnCurrentPtr, Changed, bb) \<Rightarrow>
          (case processBlockOfStores srt P basedOnCurrentPtr bb of
             None \<Rightarrow> None
           | Some (c, g, bb') \<Rightarrow> Some (Changed \<or> c, bb')))"

fun runOnBlocks ::
  "sorter \<Rightarrow> StoreMerging \<Rightarrow> string \<Rightarrow> BasicBlock list \<Rightarrow> (bool \<times> BasicBlock list) option" where
  "runOnBlocks srt P sect [] = Some (False, [])"
| "runOnBlocks srt P sect (BB # BBs) =
     (case runOnBasicBlock srt P sect BB of
        None \<Rightarrow> None
      | Some (c, BB') \<Rightarrow>
          (case runOnBlocks srt P sect BBs of
             None \<Rightarrow> None
           | Some (Changed, BBs') \<Rightarrow> Some (c \<or> Changed, BB' # BBs')))"

definition runOnFunction :: "sorter \<Rightarrow> StoreMerging \<Rightarrow> Function \<Rightarrow> (bool \<times> Function) option" where
  "runOnFunction srt P F =
     (case runOnBlocks srt P (getSection F) (blocks F) of
        None \<Rightarrow> None
      | Some (Changed, BBs) \<Rightarrow> Some (Changed, F\<lparr>blocks := BBs\<rparr>))"

subsection \<open>Running the model\<close>

text \<open>
  A sorting routine for \<open>std::sort\<close>: insertion sort, which the C++ libraries run on short
  ranges. It keeps records that compare equal in the order they came in.
\<close>

fun insertSorted :: "('a \<Rightarrow> 'a \<Rightarrow> bool) \<Rightarrow> 'a \<Rightarrow> 'a list \<Rightarrow> 'a list" where
  "insertSorted cmp x [] = [x]"
| "insertSorted cmp x (y # ys) =
     (if cmp x y then x # y # ys else y # insertSorted cmp x ys)"

definition insertionSort :: "('a \<Rightarrow> 'a \<Rightarrow> bool) \<Rightarrow> 'a list \<Rightarrow> 'a list" where
  "insertionSort cmp xs = foldl (\<lambda>acc x. insertSorted cmp x acc) [] xs"

text \<open>
  The data layout of the two targets on the types of the model: an integer of \<open>n\<close> bits
  takes the next power of two of bytes, a pointer 4 bytes, and a vector the bytes that
  hold its bits, rounded up to a power of two (its natural alignment).
\<close>

fun powerOf2Ceil :: "nat \<Rightarrow> nat" where
  "powerOf2Ceil n = (if n \<le> 1 then n else 2 * powerOf2Ceil ((n + 1) div 2))"

declare powerOf2Ceil.simps [simp del]

fun allocSize :: "ty \<Rightarrow> nat" where
  "allocSize (IntegerTy n) =
     (if n \<le> 8 then 1 else if n \<le> 16 then 2 else if n \<le> 32 then 4 else 8 * ((n + 63) div 64))"
| "allocSize HalfTy = 2"
| "allocSize BFloatTy = 2"
| "allocSize FloatTy = 4"
| "allocSize DoubleTy = 8"
| "allocSize PointerTy = 4"
| "allocSize (VectorTy t n) = powerOf2Ceil ((n * getScalarSizeInBits t + 7) div 8)"
| "allocSize (ArrayTy t n) = n * allocSize t"

definition asmjs :: StoreMerging where
  "asmjs = \<lparr>getTypeAllocSize = allocSize, isWasm = False\<rparr>"

definition wasm :: StoreMerging where
  "wasm = \<lparr>getTypeAllocSize = allocSize, isWasm = True\<rparr>"

text \<open>A store of \<open>v\<close> at \<open>off\<close> bytes from the pointer value \<open>base\<close>.\<close>

definition storeAt :: "ref \<Rightarrow> ref \<Rightarrow> int \<Rightarrow> val \<Rightarrow> nat \<Rightarrow> Instruction" where
  "storeAt i base off v al =
     Store \<lparr>storeId = i,
            pointerOperand = GetElementPtrInst (100 + i) (PointerValue base) [ConstantIndex (of_int off)],
            valueOperand = v, align = al\<rparr>"

text \<open>
  The record of the run builder for \<open>storeAt i 0 off v al\<close> as the \<open>i\<close>-th store of a
  run (run positions count from 0), when the stored type takes \<open>sz\<close> bytes.
\<close>

definition recordAt :: "ref \<Rightarrow> int \<Rightarrow> nat \<Rightarrow> val \<Rightarrow> nat \<Rightarrow> StoreAndOffset" where
  "recordAt i off sz v al =
     \<lparr>store = \<lparr>storeId = i,
                pointerOperand = GetElementPtrInst (100 + i) (PointerValue 0) [ConstantIndex (of_int off)],
                valueOperand = v, align = al\<rparr>,
      size' = of_nat sz, offset = of_int off, blockIndex = of_nat (i - 1)\<rparr>"


definition asmjsFunction :: "BasicBlock \<Rightarrow> Function" where
  "asmjsFunction bb = \<lparr>getSection = ''asmjs'', blocks = [bb]\<rparr>"

text \<open>A call: it may read or write memory and has side effects.\<close>

definition callInst :: Instruction where
  "callInst = Other ''call'' True True"

text \<open>An addition of two registers: no memory access and no side effect.\<close>

definition addInst :: Instruction where
  "addInst = Other ''add'' False False"

text \<open>
  The stores of a block, and the stores that a transformed block \<open>bb'\<close> holds and the
  block \<open>bb\<close> it came from does not: the stores the transform produced.
\<close>

fun stores :: "BasicBlock \<Rightarrow> StoreInst list" where
  "stores [] = []"
| "stores (Store s # bb) = s # stores bb"
| "stores (_ # bb) = stores bb"

definition producedStores :: "BasicBlock \<Rightarrow> BasicBlock \<Rightarrow> StoreInst list" where
  "producedStores bb bb' = filter (\<lambda>s. s \<notin> set (stores bb)) (stores bb')"

text \<open>The integer types of the stores the planner creates on a target.\<close>

definition bigTypes :: "StoreMerging \<Rightarrow> ty set" where
  "bigTypes P = (if isWasm P then {IntegerTy 16, IntegerTy 32, IntegerTy 64}
                 else {IntegerTy 16, IntegerTy 32})"



subsection \<open>Notions for the idempotence of the pass\<close>








text \<open>
  The instructions of a block that the loop of runOnBasicBlock acts on: the stores, and
  the other instructions that may access memory or have a side effect.
\<close>

fun inSkeleton :: "Instruction \<Rightarrow> bool" where
  "inSkeleton (Store s) = True"
| "inSkeleton I = (mayReadOrWriteMemory I \<or> mayHaveSideEffects I)"

definition skel :: "BasicBlock \<Rightarrow> Instruction list" where
  "skel bb = filter inSkeleton bb"

text \<open>
  The loop of the executor as a recursion over the records that are left: the records as
  the loop leaves them, the records that still have a store, and the block.
\<close>

fun mergePass ::
  "StoreMerging \<Rightarrow> 32 word \<Rightarrow> StoreAndOffset list \<Rightarrow> BasicBlock \<Rightarrow>
   StoreAndOffset list \<times> StoreAndOffset list \<times> BasicBlock" where
  "mergePass P d (ra # rb # rest) bb =
     (if skipPair P d ra rb then
        (case mergePass P d (rb # rest) bb of (rs, lv, bb') \<Rightarrow> (ra # rs, ra # lv, bb'))
      else
        (case mergeStores P d ra rb bb of
           None \<Rightarrow> (ra # rb # rest, ra # rb # rest, bb)
         | Some (ra', rb', bb1) \<Rightarrow>
             (case mergePass P d rest bb1 of (rs, lv, bb') \<Rightarrow> (ra' # rb' # rs, ra' # lv, bb'))))"
| "mergePass P d [r] bb = ([r], [r], bb)"
| "mergePass P d [] bb = ([], [], bb)"













section \<open>The pass never aborts\<close>

lemma mergedValue_Some:
  "strategy \<noteq> NOT_CONVENIENT \<Longrightarrow> \<exists>r. mergedValue P dim strategy lowValue highValue = Some r"
  by (cases strategy) (simp_all add: mergedValue_def Let_def)

lemma mergeStores_Some:
  assumes "\<not> skipPair P dim ra rb"
  shows "\<exists>ra' rb' bb'. mergeStores P dim ra rb bb = Some (ra', rb', bb')"
proof -
  from assms have "chooseStrategy (valueOperand (store ra)) (valueOperand (store rb)) \<noteq> NOT_CONVENIENT"
    by (simp add: skipPair_def)
  from mergedValue_Some [OF this] obtain r where
    "mergedValue P dim (chooseStrategy (valueOperand (store ra)) (valueOperand (store rb)))
       (valueOperand (store ra)) (valueOperand (store rb)) = Some r" by blast
  then show ?thesis
    by (cases r) (simp add: mergeStores_def Let_def)
qed

lemma processLoop_Some:
  "\<exists>c g' bb'. processLoop P dim N i g bb Changed = Some (c, g', bb')"
proof (induction P dim N i g bb Changed rule: processLoop.induct)
  case (1 P dim N i g bb Changed)
  show ?case
  proof (cases "i + 1 < N")
    case False
    then show ?thesis by (simp add: processLoop.simps)
  next
    case True
    show ?thesis
    proof (cases "skipPair P dim (g ! i) (g ! (i + 1))")
      case skip: True
      with True "1.IH"(1) show ?thesis by (subst processLoop.simps) simp
    next
      case noskip: False
      from mergeStores_Some [OF noskip] obtain ra rb bb' where
        m: "mergeStores P dim (g ! i) (g ! (i + 1)) bb = Some (ra, rb, bb')" by blast
      from "1.IH"(2) [OF True noskip m refl refl] True noskip m show ?thesis
        by (subst processLoop.simps) simp
    qed
  qed
qed


lemma processBlockOfStoresDim_Some:
  "\<exists>c g' bb'. processBlockOfStoresDim P dim g bb = Some (c, g', bb')"
  unfolding processBlockOfStoresDim_def by (rule processLoop_Some)

lemma processBlockOfStores_Some:
  "\<exists>c g' bb'. processBlockOfStores srt P g bb = Some (c, g', bb')"
proof -
  obtain c1 g1 bb1 where 1: "processBlockOfStoresDim P 1 (sortStores srt g) bb = Some (c1, g1, bb1)"
    using processBlockOfStoresDim_Some by blast
  obtain c2 g2 bb2 where 2:
    "processBlockOfStoresDim P 2 (filterAlreadyProcessedStores g1) bb1 = Some (c2, g2, bb2)"
    using processBlockOfStoresDim_Some by blast
  obtain c4 g3 bb3 where 3:
    "processBlockOfStoresDim P 4 (filterAlreadyProcessedStores g2) bb2 = Some (c4, g3, bb3)"
    using processBlockOfStoresDim_Some by blast
  show ?thesis by (auto simp add: processBlockOfStores_def Let_def 1 2 3)
qed

lemma runLoop_Some:
  "\<exists>r. runLoop srt P rest currentPtr g Changed bb = Some r"
proof (induction rest arbitrary: currentPtr g Changed bb)
  case Nil
  show ?case by simp
next
  case (Cons I rest)
  obtain c g' bb' where p: "processBlockOfStores srt P g bb = Some (c, g', bb')"
    using processBlockOfStores_Some by blast
  show ?case
  proof (cases I)
    case (Store SI)
    show ?thesis unfolding Store using Cons.IH p by (simp add: Let_def)
  next
    case (Computed v)
    show ?thesis unfolding Computed using Cons.IH by simp
  next
    case (ComputedPtr q)
    show ?thesis unfolding ComputedPtr using Cons.IH by simp
  next
    case (Other n m e)
    show ?thesis unfolding Other using Cons.IH p by simp
  qed
qed

lemma runOnBasicBlock_Some: "\<exists>c BB'. runOnBasicBlock srt P sect BB = Some (c, BB')"
proof -
  obtain cp g c bb where 1: "runLoop srt P BB None [] False BB = Some (cp, g, c, bb)"
    using runLoop_Some [of srt P BB None "[]" False BB] by (metis prod_cases4)
  obtain c' g' bb' where 2: "processBlockOfStores srt P g bb = Some (c', g', bb')"
    using processBlockOfStores_Some by blast
  show ?thesis by (auto simp add: runOnBasicBlock_def 1 2)
qed

lemma runOnBlocks_Some: "\<exists>c BBs'. runOnBlocks srt P sect BBs = Some (c, BBs')"
proof (induction BBs)
  case Nil
  show ?case by auto
next
  case (Cons BB BBs)
  obtain c BB' where 1: "runOnBasicBlock srt P sect BB = Some (c, BB')"
    using runOnBasicBlock_Some by blast
  from Cons obtain cs BBs' where 2: "runOnBlocks srt P sect BBs = Some (cs, BBs')" by blast
  show ?case by (simp add: 1 2)
qed

lemma runOnFunction_Some: "\<exists>c F'. runOnFunction srt P F = Some (c, F')"
proof -
  obtain c BBs where "runOnBlocks srt P (getSection F) (blocks F) = Some (c, BBs)"
    using runOnBlocks_Some by blast
  then show ?thesis by (simp add: runOnFunction_def)
qed

lemma processLoop_all_skipped:
  assumes "\<And>j. i \<le> j \<Longrightarrow> j + 1 < N \<Longrightarrow> skipPair P dim (g ! j) (g ! (j + 1))"
  shows "processLoop P dim N i g bb Changed = Some (Changed, g, bb)"
  using assms
proof (induction P dim N i g bb Changed rule: processLoop.induct)
  case (1 P dim N i g bb Changed)
  show ?case
  proof (cases "i + 1 < N")
    case False
    then show ?thesis by (simp add: processLoop.simps)
  next
    case True
    have skip: "skipPair P dim (g ! i) (g ! (i + 1))" using "1.prems" True by simp
    have "processLoop P dim N (i + 1) g bb Changed = Some (Changed, g, bb)"
      using "1.IH"(1) [OF True skip] "1.prems" by simp
    with True skip show ?thesis by (subst processLoop.simps) simp
  qed
qed



lemmas run_defs = runOnFunction_def asmjsFunction_def callInst_def addInst_def
  runOnBasicBlock_def storeAt_def recordAt_def asmjs_def wasm_def
  findBasePointerAndOffset_def newRecord_def processBlockOfStores_def sortStores_def
  insertionSort_def offsetLess_def hasOverlap_def processBlockOfStoresDim_def
  processLoop.simps skipPair_def chooseStrategy_def mergeStores_def mergedValue_def
  convertToBigType_def CreateBitCast_def newRef_def eraseFromParent_def
  filterAlreadyProcessedStores_def Let_def word_sless_alt

lemma processBlockOfStoresDim_pair:
  "processBlockOfStoresDim P dim [ra, rb] bb =
     (if skipPair P dim ra rb then Some (False, [ra, rb], bb)
      else case mergeStores P dim ra rb bb of
             None \<Rightarrow> None
           | Some (ra', rb', bb') \<Rightarrow> Some (True, [ra', rb'], bb'))"
  by (simp add: processBlockOfStoresDim_def processLoop.simps split: option.splits)

lemma processBlockOfStores_short:
  "length g < 2 \<Longrightarrow> processBlockOfStores srt P g bb = Some (False, g, bb)"
  by (simp add: processBlockOfStores_def)

section \<open>The value of a merged store\<close>




lemma CreateZExt_type: "getType (fst (CreateZExt v (IntegerTy n))) = IntegerTy n"
  by (cases v) simp_all



lemma CreateBitCast_type: "getType (fst (CreateBitCast v t)) = t"
  by (simp add: CreateBitCast_def)




lemma CreateAdd_type: "getType (fst (CreateAdd v u)) = getType v"
  by (cases v; cases u) simp_all

lemma convertToBigType_fst:
  "fst (convertToBigType P bigType int32Type v) =
     (let v1 = (if isPointerTy (getType v) then fst (CreatePtrToInt v int32Type)
                else if \<not> isIntegerTy (getType v) then
                  fst (CreateBitCast v
                    (IntegerTy (unat (of_nat (getTypeAllocSize P (getType v)) :: 32 word))))
                else v)
      in if getType v1 \<noteq> bigType then fst (CreateZExt v1 bigType) else v1)"
  by (auto simp: convertToBigType_def Let_def)

lemma convertToBigType_type:
  "getType (fst (convertToBigType P (IntegerTy n) int32Type v)) = IntegerTy n"
  by (simp add: convertToBigType_fst Let_def CreateZExt_type)


lemma mergedValue_CONSTANT:
  "mergedValue P dim CONSTANT lowValue highValue =
     Some (fst (CreateAdd (fst (convertToBigType P (IntegerTy (unat (dim * 16))) (IntegerTy 32) lowValue))
                 (fst (CreateShl (fst (convertToBigType P (IntegerTy (unat (dim * 16))) (IntegerTy 32) highValue))
                        (unat (dim * 8))))),
           snd (convertToBigType P (IntegerTy (unat (dim * 16))) (IntegerTy 32) lowValue) @
           snd (convertToBigType P (IntegerTy (unat (dim * 16))) (IntegerTy 32) highValue) @
           snd (CreateShl (fst (convertToBigType P (IntegerTy (unat (dim * 16))) (IntegerTy 32) highValue))
                        (unat (dim * 8))) @
           snd (CreateAdd (fst (convertToBigType P (IntegerTy (unat (dim * 16))) (IntegerTy 32) lowValue))
                 (fst (CreateShl (fst (convertToBigType P (IntegerTy (unat (dim * 16))) (IntegerTy 32) highValue))
                        (unat (dim * 8))))))"
  by (simp add: mergedValue_def Let_def)

lemma mergedValue_ZERO_EXTEND:
  "mergedValue P dim ZERO_EXTEND lowValue highValue =
     Some (convertToBigType P (IntegerTy (unat (dim * 16))) (IntegerTy 32) lowValue)"
  by (simp add: mergedValue_def Let_def)

lemma mergedValue_type:
  assumes "mergedValue P dim strategy lowValue highValue = Some (sumv, new)"
  shows "getType sumv = IntegerTy (unat (dim * 16))"
proof (cases strategy)
  case NOT_CONVENIENT
  with assms show ?thesis by (simp add: mergedValue_def)
next
  case CONSTANT
  with assms have "sumv = fst (CreateAdd
      (fst (convertToBigType P (IntegerTy (unat (dim * 16))) (IntegerTy 32) lowValue))
      (fst (CreateShl (fst (convertToBigType P (IntegerTy (unat (dim * 16))) (IntegerTy 32) highValue))
             (unat (dim * 8)))))"
    by (simp add: mergedValue_CONSTANT)
  then show ?thesis by (simp add: CreateAdd_type convertToBigType_type)
next
  case ZERO_EXTEND
  with assms have "sumv = fst (convertToBigType P (IntegerTy (unat (dim * 16))) (IntegerTy 32) lowValue)"
    by (auto simp: mergedValue_ZERO_EXTEND)
  then show ?thesis by (simp add: convertToBigType_type)
qed





section \<open>The stores the pass produces\<close>

lemma set_stores: "set (stores bb) = {s. Store s \<in> set bb}"
  by (induction bb rule: stores.induct) auto

lemma set_insertBefore: "set (insertBefore r new bb) \<subseteq> set bb \<union> set new"
  by (induction bb) auto

lemma set_eraseFromParent: "set (eraseFromParent r bb) \<subseteq> set bb"
  by (auto simp: eraseFromParent_def)

lemma CreateZExt_insts: "Store s \<notin> set (snd (CreateZExt v t))"
  by (cases v) simp_all

lemma CreatePtrToInt_insts: "Store s \<notin> set (snd (CreatePtrToInt v t))"
  by (cases v) simp_all

lemma CreateBitCast_insts: "Store s \<notin> set (snd (CreateBitCast v t))"
  by (simp add: CreateBitCast_def)

lemma CreateShl_insts: "Store s \<notin> set (snd (CreateShl v k))"
  by (cases v) simp_all

lemma CreateAdd_insts: "Store s \<notin> set (snd (CreateAdd v u))"
  by (cases v; cases u) simp_all

lemma convertToBigType_insts: "Store s \<notin> set (snd (convertToBigType P bigType int32Type v))"
  by (simp add: convertToBigType_def Let_def CreateZExt_insts CreatePtrToInt_insts
      CreateBitCast_insts)

lemma mergedValue_insts:
  assumes "mergedValue P dim strategy lowValue highValue = Some (sumv, new)"
  shows "Store s \<notin> set new"
proof (cases strategy)
  case NOT_CONVENIENT
  with assms show ?thesis by (simp add: mergedValue_def)
next
  case CONSTANT
  with assms show ?thesis
    by (auto simp: mergedValue_CONSTANT convertToBigType_insts CreateShl_insts CreateAdd_insts)
next
  case ZERO_EXTEND
  with assms have "new = snd (convertToBigType P (IntegerTy (unat (dim * 16))) (IntegerTy 32) lowValue)"
    by (auto simp: mergedValue_ZERO_EXTEND)
  then show ?thesis by (simp add: convertToBigType_insts)
qed

lemma mergeStores_stores:
  assumes "mergeStores P dim ra rb bb = Some (ra', rb', bb')" and "Store s \<in> set bb'"
  shows "Store s \<in> set bb \<or> getType (valueOperand s) = IntegerTy (unat (dim * 16))"
proof -
  let ?lo = "valueOperand (store ra)" and ?hi = "valueOperand (store rb)"
  from assms(1) obtain sumv new where
    m: "mergedValue P dim (chooseStrategy ?lo ?hi) ?lo ?hi = Some (sumv, new)"
    by (auto simp: mergeStores_def Let_def split: option.splits)
  let ?big = "\<lparr>storeId = newRef bb, pointerOperand = BitCastInst (pointerOperand (store ra)),
               valueOperand = sumv, align = unat (of_nat (align (store ra)) :: 32 word)\<rparr>"
  from assms(1) m have bb': "bb' = eraseFromParent (storeId (store rb))
      (eraseFromParent (storeId (store ra))
        (insertBefore (storeId (store ra))
          (new @ [ComputedPtr (BitCastInst (pointerOperand (store ra))), Store ?big]) bb))"
    by (simp add: mergeStores_def Let_def)
  with assms(2) have "Store s \<in> set bb \<union> set (new @ [ComputedPtr (BitCastInst (pointerOperand (store ra))), Store ?big])"
    using set_eraseFromParent set_insertBefore by blast
  with mergedValue_insts [OF m] have "Store s \<in> set bb \<or> s = ?big" by auto
  with mergedValue_type [OF m] show ?thesis by auto
qed

lemma processLoop_stores:
  assumes "processLoop P dim N i g bb Changed = Some (c, g', bb')" and "Store s \<in> set bb'"
  shows "Store s \<in> set bb \<or> getType (valueOperand s) = IntegerTy (unat (dim * 16))"
  using assms
proof (induction P dim N i g bb Changed rule: processLoop.induct)
  case (1 P dim N i g bb Changed)
  show ?case
  proof (cases "i + 1 < N")
    case False
    with "1.prems" show ?thesis by (simp add: processLoop.simps)
  next
    case True
    show ?thesis
    proof (cases "skipPair P dim (g ! i) (g ! (i + 1))")
      case skip: True
      with True "1.prems" have "processLoop P dim N (i + 1) g bb Changed = Some (c, g', bb')"
        by (subst (asm) processLoop.simps) simp
      from "1.IH"(1) [OF True skip this "1.prems"(2)] show ?thesis .
    next
      case noskip: False
      from mergeStores_Some [OF noskip] obtain ra rb bb1 where
        m: "mergeStores P dim (g ! i) (g ! (i + 1)) bb = Some (ra, rb, bb1)" by blast
      with True noskip "1.prems" have
        "processLoop P dim N (i + 2) (g[i := ra, i + 1 := rb]) bb1 True = Some (c, g', bb')"
        by (subst (asm) processLoop.simps) simp
      from "1.IH"(2) [OF True noskip m refl refl this "1.prems"(2)]
      have "Store s \<in> set bb1 \<or> getType (valueOperand s) = IntegerTy (unat (dim * 16))" .
      with mergeStores_stores [OF m] show ?thesis by blast
    qed
  qed
qed

lemma processBlockOfStores_stores:
  assumes "processBlockOfStores srt P g bb = Some (c, g', bb')" and "Store s \<in> set bb'"
  shows "Store s \<in> set bb \<or> getType (valueOperand s) \<in> bigTypes P"
proof (cases "length g < 2 \<or> hasOverlap (sortStores srt g)")
  case True
  with assms show ?thesis by (auto simp: processBlockOfStores_def Let_def split: if_splits)
next
  case False
  obtain c1 g1 bb1 where 1: "processBlockOfStoresDim P 1 (sortStores srt g) bb = Some (c1, g1, bb1)"
    using processBlockOfStoresDim_Some by blast
  obtain c2 g2 bb2 where 2:
    "processBlockOfStoresDim P 2 (filterAlreadyProcessedStores g1) bb1 = Some (c2, g2, bb2)"
    using processBlockOfStoresDim_Some by blast
  obtain c4 g3 bb3 where 3:
    "processBlockOfStoresDim P 4 (filterAlreadyProcessedStores g2) bb2 = Some (c4, g3, bb3)"
    using processBlockOfStoresDim_Some by blast
  have s1: "\<And>s. Store s \<in> set bb1 \<Longrightarrow> Store s \<in> set bb \<or> getType (valueOperand s) = IntegerTy 16"
    using processLoop_stores [OF 1 [unfolded processBlockOfStoresDim_def]] by simp
  have s2: "\<And>s. Store s \<in> set bb2 \<Longrightarrow> Store s \<in> set bb1 \<or> getType (valueOperand s) = IntegerTy 32"
    using processLoop_stores [OF 2 [unfolded processBlockOfStoresDim_def]] by simp
  have s3: "\<And>s. Store s \<in> set bb3 \<Longrightarrow> Store s \<in> set bb2 \<or> getType (valueOperand s) = IntegerTy 64"
    using processLoop_stores [OF 3 [unfolded processBlockOfStoresDim_def]] by simp
  show ?thesis
  proof (cases "isWasm P")
    case True
    with False assms(1) 1 2 3 have "bb' = bb3" by (simp add: processBlockOfStores_def Let_def)
    with assms(2) s1 s2 s3 True show ?thesis by (auto simp: bigTypes_def dest!: s3 s2 s1)
  next
    case nw: False
    with False assms(1) 1 2 have "bb' = bb2" by (simp add: processBlockOfStores_def Let_def)
    with assms(2) s1 s2 nw show ?thesis by (auto simp: bigTypes_def dest!: s2 s1)
  qed
qed

lemma runLoop_stores:
  assumes "runLoop srt P rest currentPtr g Changed bb = Some (cp', g', c', bb')"
    and "Store s \<in> set bb'"
  shows "Store s \<in> set bb \<or> getType (valueOperand s) \<in> bigTypes P"
  using assms
proof (induction rest arbitrary: currentPtr g Changed bb)
  case Nil
  then show ?case by simp
next
  case (Cons I rest)
  obtain c g1 bb1 where p: "processBlockOfStores srt P g bb = Some (c, g1, bb1)"
    using processBlockOfStores_Some by blast
  have step: "\<And>cp g2 ch. runLoop srt P rest cp g2 ch bb1 = Some (cp', g', c', bb') \<Longrightarrow>
      Store s \<in> set bb \<or> getType (valueOperand s) \<in> bigTypes P"
    using Cons.IH [OF _ Cons.prems(2)] processBlockOfStores_stores [OF p] by blast
  show ?case
  proof (cases I)
    case (Store SI)
    with Cons.prems(1) p show ?thesis
      using step Cons.IH [OF _ Cons.prems(2)] by (auto simp: Let_def split: if_splits)
  next
    case (Computed v)
    with Cons.prems(1) show ?thesis using Cons.IH [OF _ Cons.prems(2)] by simp
  next
    case (ComputedPtr q)
    with Cons.prems(1) show ?thesis using Cons.IH [OF _ Cons.prems(2)] by simp
  next
    case (Other n m e)
    with Cons.prems(1) p show ?thesis
      using step Cons.IH [OF _ Cons.prems(2)] by (auto split: if_splits)
  qed
qed

lemma runOnBasicBlock_stores:
  assumes "runOnBasicBlock srt P sect BB = Some (c, BB')" and "Store s \<in> set BB'"
  shows "Store s \<in> set BB \<or> getType (valueOperand s) \<in> bigTypes P"
proof (cases "sect \<noteq> ''asmjs''")
  case True
  with assms show ?thesis by (simp add: runOnBasicBlock_def)
next
  case False
  obtain cp g ch bb where 1: "runLoop srt P BB None [] False BB = Some (cp, g, ch, bb)"
    using runLoop_Some [of srt P BB None "[]" False BB] by (metis prod_cases4)
  obtain c' g' bb' where 2: "processBlockOfStores srt P g bb = Some (c', g', bb')"
    using processBlockOfStores_Some by blast
  from False assms(1) 1 2 have "BB' = bb'" by (simp add: runOnBasicBlock_def)
  with assms(2) processBlockOfStores_stores [OF 2] runLoop_stores [OF 1] show ?thesis by blast
qed

lemma runOnBlocks_stores:
  assumes "runOnBlocks srt P sect BBs = Some (c, BBs')"
  shows "length BBs' = length BBs \<and>
    (\<forall>i < length BBs. \<forall>s. Store s \<in> set (BBs' ! i) \<longrightarrow>
       Store s \<in> set (BBs ! i) \<or> getType (valueOperand s) \<in> bigTypes P)"
  using assms
proof (induction BBs arbitrary: c BBs')
  case Nil
  then show ?case by simp
next
  case (Cons BB BBs)
  obtain c1 BB' where 1: "runOnBasicBlock srt P sect BB = Some (c1, BB')"
    using runOnBasicBlock_Some by blast
  obtain cs BBs1 where 2: "runOnBlocks srt P sect BBs = Some (cs, BBs1)"
    using runOnBlocks_Some by blast
  from Cons.prems 1 2 have e: "BBs' = BB' # BBs1" by simp
  from Cons.IH [OF 2] runOnBasicBlock_stores [OF 1] show ?case
    unfolding e by (auto simp: nth_Cons split: nat.splits)
qed

section \<open>Sorting a run\<close>












section \<open>Scenario A\<close>


lemma run_scenarioA:
  "runOnFunction insertionSort asmjs
     (asmjsFunction
        [storeAt 1 0 0 (ConstantInt 8 0x11) 4, storeAt 2 0 1 (ConstantInt 8 0x22) 1,
         storeAt 3 0 2 (ConstantInt 8 0x33) 2, storeAt 4 0 3 (ConstantInt 8 0x44) 1]) =
   Some (True, asmjsFunction
     [ComputedPtr (BitCastInst (GetElementPtrInst 101 (PointerValue 0) [ConstantIndex 0])),
      ComputedPtr (BitCastInst (BitCastInst (GetElementPtrInst 101 (PointerValue 0) [ConstantIndex 0]))),
      Store \<lparr>storeId = 7,
             pointerOperand =
               BitCastInst (BitCastInst (GetElementPtrInst 101 (PointerValue 0) [ConstantIndex 0])),
             valueOperand = ConstantInt 32 0x44332211, align = 4\<rparr>,
      ComputedPtr (BitCastInst (GetElementPtrInst 103 (PointerValue 0) [ConstantIndex 2]))])"
  by (simp add: run_defs)

text \<open>
  Claim C10. The fatal branch of the executor, the \<open>assert(false)\<close> taken when no packing
  strategy was selected, is never reached: a pair that is not skipped has the strategy
  CONSTANT or ZERO_EXTEND and its value is synthesized, so the executor, the planner and
  the pass always return; and a run all of whose pairs are rejected is left as it is,
  records and block.
\<close>

theorem executor_never_aborts:
  "(\<not> skipPair P dim ra rb \<longrightarrow>
      (chooseStrategy (valueOperand (store ra)) (valueOperand (store rb)) = CONSTANT \<or>
       chooseStrategy (valueOperand (store ra)) (valueOperand (store rb)) = ZERO_EXTEND) \<and>
      mergedValue P dim (chooseStrategy (valueOperand (store ra)) (valueOperand (store rb)))
        (valueOperand (store ra)) (valueOperand (store rb)) \<noteq> None \<and>
      mergeStores P dim ra rb bb \<noteq> None) \<and>
   processBlockOfStoresDim P dim g bb \<noteq> None \<and>
   ((\<forall>i. i + 1 < length g \<longrightarrow> skipPair P dim (g ! i) (g ! (i + 1))) \<longrightarrow>
      processBlockOfStoresDim P dim g bb = Some (False, g, bb)) \<and>
   processBlockOfStores srt P g bb \<noteq> None \<and>
   runOnFunction srt P F \<noteq> None"
proof (intro conjI impI)
  assume ns: "\<not> skipPair P dim ra rb"
  then have st: "chooseStrategy (valueOperand (store ra)) (valueOperand (store rb)) \<noteq> NOT_CONVENIENT"
    by (simp add: skipPair_def)
  then show "chooseStrategy (valueOperand (store ra)) (valueOperand (store rb)) = CONSTANT \<or>
       chooseStrategy (valueOperand (store ra)) (valueOperand (store rb)) = ZERO_EXTEND"
    by (cases "chooseStrategy (valueOperand (store ra)) (valueOperand (store rb))") simp_all
  from mergedValue_Some [OF st]
  show "mergedValue P dim (chooseStrategy (valueOperand (store ra)) (valueOperand (store rb)))
        (valueOperand (store ra)) (valueOperand (store rb)) \<noteq> None" by auto
  from mergeStores_Some [OF ns] show "mergeStores P dim ra rb bb \<noteq> None" by auto
next
  show "processBlockOfStoresDim P dim g bb \<noteq> None"
    using processBlockOfStoresDim_Some [of P dim g bb] by auto
next
  assume "\<forall>i. i + 1 < length g \<longrightarrow> skipPair P dim (g ! i) (g ! (i + 1))"
  then show "processBlockOfStoresDim P dim g bb = Some (False, g, bb)"
    unfolding processBlockOfStoresDim_def by (intro processLoop_all_skipped) simp
next
  show "processBlockOfStores srt P g bb \<noteq> None"
    using processBlockOfStores_Some [of srt P g bb] by auto
next
  show "runOnFunction srt P F \<noteq> None"
    using runOnFunction_Some [of srt P F] by auto
qed

text \<open>The theorem at a pair of byte stores that is merged and at one that is skipped.\<close>

theorem executor_never_aborts_witness:
  "\<not> skipPair asmjs 1 (recordAt 1 0 1 (ConstantInt 8 17) 4) (recordAt 2 1 1 (ConstantInt 8 34) 1) \<and>
   chooseStrategy (ConstantInt 8 17) (ConstantInt 8 34) = CONSTANT \<and>
   mergeStores asmjs 1 (recordAt 1 0 1 (ConstantInt 8 17) 4) (recordAt 2 1 1 (ConstantInt 8 34) 1) [] \<noteq> None \<and>
   skipPair asmjs 1 (recordAt 1 0 1 (ConstantInt 8 17) 4) (recordAt 2 2 1 (ConstantInt 8 34) 1) \<and>
   processBlockOfStoresDim asmjs 1
     [recordAt 1 0 1 (ConstantInt 8 17) 4, recordAt 2 2 1 (ConstantInt 8 34) 1] [] =
   Some (False, [recordAt 1 0 1 (ConstantInt 8 17) 4, recordAt 2 2 1 (ConstantInt 8 34) 1], [])"
proof -
  have a: "\<not> skipPair asmjs 1 (recordAt 1 0 1 (ConstantInt 8 17) 4) (recordAt 2 1 1 (ConstantInt 8 34) 1)"
    by (simp add: skipPair_def recordAt_def asmjs_def chooseStrategy_def)
  have b: "skipPair asmjs 1 (recordAt 1 0 1 (ConstantInt 8 17) 4) (recordAt 2 2 1 (ConstantInt 8 34) 1)"
    by (simp add: skipPair_def recordAt_def asmjs_def chooseStrategy_def)
  have c: "\<forall>i. i + 1 < length [recordAt 1 0 1 (ConstantInt 8 17) 4, recordAt 2 2 1 (ConstantInt 8 34) 1] \<longrightarrow>
      skipPair asmjs 1 ([recordAt 1 0 1 (ConstantInt 8 17) 4, recordAt 2 2 1 (ConstantInt 8 34) 1] ! i)
        ([recordAt 1 0 1 (ConstantInt 8 17) 4, recordAt 2 2 1 (ConstantInt 8 34) 1] ! (i + 1))"
    using b by simp
  have d: "chooseStrategy (ConstantInt 8 17) (ConstantInt 8 34) = CONSTANT"
    by (simp add: chooseStrategy_def)
  from executor_never_aborts [of asmjs 1 "recordAt 1 0 1 (ConstantInt 8 17) 4"
      "recordAt 2 1 1 (ConstantInt 8 34) 1" "[]"
      "[recordAt 1 0 1 (ConstantInt 8 17) 4, recordAt 2 2 1 (ConstantInt 8 34) 1]"] a b c d
  show ?thesis by blast
qed

section \<open>The overlap check\<close>

text \<open>
  Claim C1 (overlap safety), evaluated where the code departs from it. The run holds a
  4-byte store at offset -4 and 1-byte stores at offsets -2 and -1, so the byte ranges
  [-4, 0) and [-2, -1) intersect. The overlap check adds the unsigned size to the offset
  and compares unsigned: -4 + 4 wraps to 0, which is not above the unsigned reading of
  -2, so no overlap is seen and the two byte stores are merged.
\<close>

theorem overlap_wraparound_not_detected:
  "sortStores insertionSort
     [recordAt 1 (-2) 1 (ConstantInt 8 1) 2,
      recordAt 2 (-4) 4 (Register 7 (IntegerTy 32)) 4,
      recordAt 3 (-1) 1 (ConstantInt 8 2) 1] =
     [recordAt 2 (-4) 4 (Register 7 (IntegerTy 32)) 4,
      recordAt 1 (-2) 1 (ConstantInt 8 1) 2,
      recordAt 3 (-1) 1 (ConstantInt 8 2) 1] \<and>
   sint (offset (recordAt 1 (-2) 1 (ConstantInt 8 1) 2)) <
     sint (offset (recordAt 2 (-4) 4 (Register 7 (IntegerTy 32)) 4)) +
     uint (size' (recordAt 2 (-4) 4 (Register 7 (IntegerTy 32)) 4)) \<and>
   \<not> hasOverlap
     [recordAt 2 (-4) 4 (Register 7 (IntegerTy 32)) 4,
      recordAt 1 (-2) 1 (ConstantInt 8 1) 2,
      recordAt 3 (-1) 1 (ConstantInt 8 2) 1] \<and>
   runOnBasicBlock insertionSort asmjs ''asmjs''
     [storeAt 1 0 (-2) (ConstantInt 8 1) 2,
      storeAt 2 0 (-4) (Register 7 (IntegerTy 32)) 4,
      storeAt 3 0 (-1) (ConstantInt 8 2) 1] =
   Some (True,
     [ComputedPtr (BitCastInst (GetElementPtrInst 101 (PointerValue 0) [ConstantIndex (- 2)])),
      Store \<lparr>storeId = 4,
             pointerOperand = BitCastInst (GetElementPtrInst 101 (PointerValue 0) [ConstantIndex (- 2)]),
             valueOperand = ConstantInt 16 513, align = 2\<rparr>,
      storeAt 2 0 (-4) (Register 7 (IntegerTy 32)) 4])"
  by (simp add: run_defs)

section \<open>The type exclusion\<close>

text \<open>
  Claim C3 (no merge when a value operand has a floating-point type), evaluated where the
  code departs from it: the loop body tests \<open>isFloatTy\<close>, the 32-bit float type, so two
  adjacent constant stores of type half (2 bytes each, a floating-point type) are merged
  by the width-2 pass.
\<close>

theorem half_stores_are_merged:
  "isFloatingPointTy (getType (ConstantFP HalfTy 15360)) \<and>
   runOnFunction insertionSort asmjs
     (asmjsFunction [storeAt 1 0 0 (ConstantFP HalfTy 15360) 4, storeAt 2 0 2 (ConstantFP HalfTy 15360) 2]) =
   Some (True, asmjsFunction
     [ComputedPtr (BitCastInst (GetElementPtrInst 101 (PointerValue 0) [ConstantIndex 0])),
      Store \<lparr>storeId = 3,
             pointerOperand = BitCastInst (GetElementPtrInst 101 (PointerValue 0) [ConstantIndex 0]),
             valueOperand =
               Add (ZExt (BitCast (ConstantFP HalfTy 15360) (IntegerTy 2)) (IntegerTy 32))
                   (Shl (ZExt (BitCast (ConstantFP HalfTy 15360) (IntegerTy 2)) (IntegerTy 32)) 16),
             align = 4\<rparr>])"
  by (simp add: run_defs)

text \<open>
  Claim C8 (a non-integer scalar is reinterpreted as an integer of its natural bit width),
  evaluated where the code departs from it: \<open>convertToBigType\<close> passes the allocation
  size, a number of bytes, as the bit width of the integer type, so a half (16 bits,
  2 bytes) is cast to a 2-bit integer before it is zero-extended.
\<close>

theorem convertToBigType_uses_bytes_as_bits:
  "getScalarSizeInBits HalfTy = 16 \<and>
   getTypeAllocSize asmjs HalfTy = 2 \<and>
   convertToBigType asmjs (IntegerTy 32) (IntegerTy 32) (Register 9 HalfTy) =
     (ZExt (BitCast (Register 9 HalfTy) (IntegerTy 2)) (IntegerTy 32),
      [Computed (BitCast (Register 9 HalfTy) (IntegerTy 2)),
       Computed (ZExt (BitCast (Register 9 HalfTy) (IntegerTy 2)) (IntegerTy 32))]) \<and>
   runOnFunction insertionSort asmjs
     (asmjsFunction [storeAt 1 0 0 (Register 9 HalfTy) 4, storeAt 2 0 2 (ConstantFP HalfTy 0) 2]) =
   Some (True, asmjsFunction
     [Computed (BitCast (Register 9 HalfTy) (IntegerTy 2)),
      Computed (ZExt (BitCast (Register 9 HalfTy) (IntegerTy 2)) (IntegerTy 32)),
      ComputedPtr (BitCastInst (GetElementPtrInst 101 (PointerValue 0) [ConstantIndex 0])),
      Store \<lparr>storeId = 3,
             pointerOperand = BitCastInst (GetElementPtrInst 101 (PointerValue 0) [ConstantIndex 0]),
             valueOperand = ZExt (BitCast (Register 9 HalfTy) (IntegerTy 2)) (IntegerTy 32),
             align = 4\<rparr>])"
  by (simp add: run_defs)

section \<open>The alignment requirement\<close>

text \<open>
  Claim C5. On the baseline target a pair of width \<open>dim\<close> whose low store has an alignment
  below \<open>2 * dim\<close> is skipped, and a run of such a pair is left as it is; on the wider
  target the alignment of the low store has no influence on whether the pair is skipped.
  Scenario C: two 2-byte constant stores at offsets 0 and 2, the first with alignment 2,
  are left alone on the baseline target and merged into one 4-byte store on the wider one.
\<close>

theorem alignment_requirement:
  "(\<not> isWasm P \<longrightarrow> dim \<in> {1, 2, 4} \<longrightarrow> align (store ra) < 2 * unat dim \<longrightarrow>
      skipPair P dim ra rb \<and>
      processBlockOfStoresDim P dim [ra, rb] bb = Some (False, [ra, rb], bb)) \<and>
   (isWasm P \<longrightarrow>
      skipPair P dim (ra\<lparr>store := (store ra)\<lparr>align := al\<rparr>\<rparr>) rb = skipPair P dim ra rb) \<and>
   runOnFunction insertionSort asmjs
     (asmjsFunction [storeAt 1 0 0 (ConstantInt 16 1) 2, storeAt 2 0 2 (ConstantInt 16 2) 2]) =
   Some (False,
     asmjsFunction [storeAt 1 0 0 (ConstantInt 16 1) 2, storeAt 2 0 2 (ConstantInt 16 2) 2]) \<and>
   runOnFunction insertionSort wasm
     (asmjsFunction [storeAt 1 0 0 (ConstantInt 16 1) 2, storeAt 2 0 2 (ConstantInt 16 2) 2]) =
   Some (True, asmjsFunction
     [ComputedPtr (BitCastInst (GetElementPtrInst 101 (PointerValue 0) [ConstantIndex 0])),
      Store \<lparr>storeId = 3,
             pointerOperand = BitCastInst (GetElementPtrInst 101 (PointerValue 0) [ConstantIndex 0]),
             valueOperand = ConstantInt 32 131073, align = 2\<rparr>])"
proof (intro conjI impI)
  assume b: "\<not> isWasm P" and d: "dim \<in> {1, 2, 4}" and a: "align (store ra) < 2 * unat dim"
  from d a have "(of_nat (align (store ra)) :: 32 word) < dim * 2"
    by (auto simp: word_less_nat_alt unat_of_nat)
  with b show s: "skipPair P dim ra rb" by (simp add: skipPair_def)
  then show "processBlockOfStoresDim P dim [ra, rb] bb = Some (False, [ra, rb], bb)"
    by (simp add: processBlockOfStoresDim_pair)
next
  assume "isWasm P"
  then show "skipPair P dim (ra\<lparr>store := (store ra)\<lparr>align := al\<rparr>\<rparr>) rb = skipPair P dim ra rb"
    by (simp add: skipPair_def)
next
  show "runOnFunction insertionSort asmjs
     (asmjsFunction [storeAt 1 0 0 (ConstantInt 16 1) 2, storeAt 2 0 2 (ConstantInt 16 2) 2]) =
   Some (False,
     asmjsFunction [storeAt 1 0 0 (ConstantInt 16 1) 2, storeAt 2 0 2 (ConstantInt 16 2) 2])"
    by (simp add: run_defs)
next
  show "runOnFunction insertionSort wasm
     (asmjsFunction [storeAt 1 0 0 (ConstantInt 16 1) 2, storeAt 2 0 2 (ConstantInt 16 2) 2]) =
   Some (True, asmjsFunction
     [ComputedPtr (BitCastInst (GetElementPtrInst 101 (PointerValue 0) [ConstantIndex 0])),
      Store \<lparr>storeId = 3,
             pointerOperand = BitCastInst (GetElementPtrInst 101 (PointerValue 0) [ConstantIndex 0]),
             valueOperand = ConstantInt 32 131073, align = 2\<rparr>])"
    by (simp add: run_defs)
qed

text \<open>The theorem at the two records of scenario C, on each target.\<close>

theorem alignment_requirement_witness:
  "\<not> isWasm asmjs \<and> (2 :: 32 word) \<in> {1, 2, 4} \<and>
   align (store (recordAt 1 0 2 (ConstantInt 16 1) 2)) < 2 * unat (2 :: 32 word) \<and>
   skipPair asmjs 2 (recordAt 1 0 2 (ConstantInt 16 1) 2) (recordAt 2 2 2 (ConstantInt 16 2) 2) \<and>
   processBlockOfStoresDim asmjs 2
     [recordAt 1 0 2 (ConstantInt 16 1) 2, recordAt 2 2 2 (ConstantInt 16 2) 2] [] =
   Some (False, [recordAt 1 0 2 (ConstantInt 16 1) 2, recordAt 2 2 2 (ConstantInt 16 2) 2], []) \<and>
   isWasm wasm \<and>
   skipPair wasm 2 ((recordAt 1 0 2 (ConstantInt 16 1) 2)
       \<lparr>store := (store (recordAt 1 0 2 (ConstantInt 16 1) 2))\<lparr>align := 4\<rparr>\<rparr>)
     (recordAt 2 2 2 (ConstantInt 16 2) 2) =
   skipPair wasm 2 (recordAt 1 0 2 (ConstantInt 16 1) 2) (recordAt 2 2 2 (ConstantInt 16 2) 2)"
proof -
  have a: "\<not> isWasm asmjs" "isWasm wasm" by (simp_all add: asmjs_def wasm_def)
  have b: "(2 :: 32 word) \<in> {1, 2, 4}" by simp
  have c: "align (store (recordAt 1 0 2 (ConstantInt 16 1) 2)) < 2 * unat (2 :: 32 word)"
    by (simp add: recordAt_def)
  from alignment_requirement [of asmjs 2 "recordAt 1 0 2 (ConstantInt 16 1) 2"
      "recordAt 2 2 2 (ConstantInt 16 2) 2" "[]"]
    alignment_requirement [of wasm 2 "recordAt 1 0 2 (ConstantInt 16 1) 2"
      "recordAt 2 2 2 (ConstantInt 16 2) 2" "[]" 4] a b c
  show ?thesis by blast
qed

section \<open>The run builder\<close>

text \<open>
  Claim C6. At an instruction that is not a store and may read or write memory or have a
  side effect, the loop of runOnBasicBlock hands the pending run to the planner and goes
  on with no current base and an empty run; so a block of a store, such an instruction
  and another store is left unchanged, whatever the two stores are (scenario D). At an
  instruction with neither effect the loop goes on with its state untouched: two byte
  stores with an addition between them are merged.
\<close>

theorem run_builder_flush:
  "((m \<or> e) \<longrightarrow>
      runLoop srt P (Other n m e # rest) currentPtr g Changed bb =
        (case processBlockOfStores srt P g bb of
           None \<Rightarrow> None
         | Some (c, g', bb') \<Rightarrow> runLoop srt P rest None [] (Changed \<or> c) bb') \<and>
      runOnFunction srt P (asmjsFunction [Store s1, Other n m e, Store s2]) =
        Some (False, asmjsFunction [Store s1, Other n m e, Store s2])) \<and>
   (\<not> m \<and> \<not> e \<longrightarrow>
      runLoop srt P (Other n m e # rest) currentPtr g Changed bb =
        runLoop srt P rest currentPtr g Changed bb) \<and>
   runOnFunction insertionSort asmjs
     (asmjsFunction [storeAt 1 0 0 (ConstantInt 8 17) 2, addInst, storeAt 2 0 1 (ConstantInt 8 34) 1]) =
   Some (True, asmjsFunction
     [ComputedPtr (BitCastInst (GetElementPtrInst 101 (PointerValue 0) [ConstantIndex 0])),
      Store \<lparr>storeId = 3,
             pointerOperand = BitCastInst (GetElementPtrInst 101 (PointerValue 0) [ConstantIndex 0]),
             valueOperand = ConstantInt 16 8721, align = 2\<rparr>,
      addInst])"
proof (intro conjI impI)
  assume me: "m \<or> e"
  then show "runLoop srt P (Other n m e # rest) currentPtr g Changed bb =
        (case processBlockOfStores srt P g bb of
           None \<Rightarrow> None
         | Some (c, g', bb') \<Rightarrow> runLoop srt P rest None [] (Changed \<or> c) bb')"
    by simp
  from me show "runOnFunction srt P (asmjsFunction [Store s1, Other n m e, Store s2]) =
        Some (False, asmjsFunction [Store s1, Other n m e, Store s2])"
    by (simp add: runOnFunction_def asmjsFunction_def runOnBasicBlock_def Let_def
        processBlockOfStores_short)
next
  assume "\<not> m \<and> \<not> e"
  then show "runLoop srt P (Other n m e # rest) currentPtr g Changed bb =
        runLoop srt P rest currentPtr g Changed bb"
    by simp
next
  show "runOnFunction insertionSort asmjs
     (asmjsFunction [storeAt 1 0 0 (ConstantInt 8 17) 2, addInst, storeAt 2 0 1 (ConstantInt 8 34) 1]) =
   Some (True, asmjsFunction
     [ComputedPtr (BitCastInst (GetElementPtrInst 101 (PointerValue 0) [ConstantIndex 0])),
      Store \<lparr>storeId = 3,
             pointerOperand = BitCastInst (GetElementPtrInst 101 (PointerValue 0) [ConstantIndex 0]),
             valueOperand = ConstantInt 16 8721, align = 2\<rparr>,
      addInst])"
    by (simp add: run_defs)
qed

text \<open>The theorem at a call between two adjacent byte stores, and at an addition.\<close>

theorem run_builder_flush_witness:
  "runOnFunction insertionSort asmjs
     (asmjsFunction [storeAt 1 0 0 (ConstantInt 8 17) 2, callInst, storeAt 2 0 1 (ConstantInt 8 34) 1]) =
   Some (False,
     asmjsFunction [storeAt 1 0 0 (ConstantInt 8 17) 2, callInst, storeAt 2 0 1 (ConstantInt 8 34) 1]) \<and>
   runLoop insertionSort asmjs [addInst] None [] False [addInst] =
     runLoop insertionSort asmjs [] None [] False [addInst]"
proof -
  have s: "\<And>i b off v al. storeAt i b off v al =
      Store \<lparr>storeId = i,
            pointerOperand = GetElementPtrInst (100 + i) (PointerValue b) [ConstantIndex (of_int off)],
            valueOperand = v, align = al\<rparr>"
    by (simp add: storeAt_def)
  show ?thesis
    using run_builder_flush [of True True insertionSort asmjs "''call''" "[]" None "[]" False "[]"
          "\<lparr>storeId = 1,
            pointerOperand = GetElementPtrInst 101 (PointerValue 0) [ConstantIndex 0],
            valueOperand = ConstantInt 8 17, align = 2\<rparr>"
          "\<lparr>storeId = 2,
            pointerOperand = GetElementPtrInst 102 (PointerValue 0) [ConstantIndex 1],
            valueOperand = ConstantInt 8 34, align = 1\<rparr>"]
      run_builder_flush [of False False insertionSort asmjs "''add''" "[]" None "[]" False "[addInst]"]
    by (simp add: s callInst_def addInst_def)
qed



section \<open>The width cap\<close>

text \<open>
  Claim C4. Every store that runOnFunction produces (a store of a block of the result
  that the block did not hold before) has the integer type of 16 or 32 bits on the
  baseline target, so it is at most 4 bytes wide, and of 16, 32 or 64 bits on the wider
  target, at most 8 bytes: the planner runs the executor at the widths 1 and 2, and at 4
  on the wider target only. Two adjacent 4-byte constant stores become one 8-byte store
  on the wider target and stay as they are on the baseline target.
\<close>

theorem width_cap:
  "(runOnFunction srt P F = Some (Changed, F') \<longrightarrow>
      length (blocks F') = length (blocks F) \<and>
      (\<forall>i < length (blocks F). \<forall>s \<in> set (producedStores (blocks F ! i) (blocks F' ! i)).
         getType (valueOperand s) \<in>
           (if isWasm P then {IntegerTy 16, IntegerTy 32, IntegerTy 64}
            else {IntegerTy 16, IntegerTy 32}))) \<and>
   runOnFunction insertionSort wasm
     (asmjsFunction [storeAt 1 0 0 (ConstantInt 32 1) 4, storeAt 2 0 4 (ConstantInt 32 2) 4]) =
   Some (True, asmjsFunction
     [ComputedPtr (BitCastInst (GetElementPtrInst 101 (PointerValue 0) [ConstantIndex 0])),
      Store \<lparr>storeId = 3,
             pointerOperand = BitCastInst (GetElementPtrInst 101 (PointerValue 0) [ConstantIndex 0]),
             valueOperand = ConstantInt 64 0x200000001, align = 4\<rparr>]) \<and>
   runOnFunction insertionSort asmjs
     (asmjsFunction [storeAt 1 0 0 (ConstantInt 32 1) 8, storeAt 2 0 4 (ConstantInt 32 2) 4]) =
   Some (False,
     asmjsFunction [storeAt 1 0 0 (ConstantInt 32 1) 8, storeAt 2 0 4 (ConstantInt 32 2) 4])"
proof (intro conjI impI)
  assume r: "runOnFunction srt P F = Some (Changed, F')"
  obtain c BBs where b: "runOnBlocks srt P (getSection F) (blocks F) = Some (c, BBs)"
    using runOnBlocks_Some by blast
  with r have F': "blocks F' = BBs" by (auto simp: runOnFunction_def)
  from runOnBlocks_stores [OF b] F'
  show "length (blocks F') = length (blocks F)" by simp
  show "\<forall>i < length (blocks F). \<forall>s \<in> set (producedStores (blocks F ! i) (blocks F' ! i)).
         getType (valueOperand s) \<in>
           (if isWasm P then {IntegerTy 16, IntegerTy 32, IntegerTy 64}
            else {IntegerTy 16, IntegerTy 32})"
  proof (intro allI impI ballI)
    fix i s
    assume i: "i < length (blocks F)"
      and s: "s \<in> set (producedStores (blocks F ! i) (blocks F' ! i))"
    from s have in': "Store s \<in> set (BBs ! i)" and out: "Store s \<notin> set (blocks F ! i)"
      by (simp_all add: producedStores_def set_stores F')
    from runOnBlocks_stores [OF b, THEN conjunct2, rule_format, OF i in'] out
    have "getType (valueOperand s) \<in> bigTypes P" by simp
    then show "getType (valueOperand s) \<in>
           (if isWasm P then {IntegerTy 16, IntegerTy 32, IntegerTy 64}
            else {IntegerTy 16, IntegerTy 32})"
      by (simp add: bigTypes_def)
  qed
next
  show "runOnFunction insertionSort wasm
     (asmjsFunction [storeAt 1 0 0 (ConstantInt 32 1) 4, storeAt 2 0 4 (ConstantInt 32 2) 4]) =
   Some (True, asmjsFunction
     [ComputedPtr (BitCastInst (GetElementPtrInst 101 (PointerValue 0) [ConstantIndex 0])),
      Store \<lparr>storeId = 3,
             pointerOperand = BitCastInst (GetElementPtrInst 101 (PointerValue 0) [ConstantIndex 0]),
             valueOperand = ConstantInt 64 0x200000001, align = 4\<rparr>])"
    by (simp add: run_defs)
next
  show "runOnFunction insertionSort asmjs
     (asmjsFunction [storeAt 1 0 0 (ConstantInt 32 1) 8, storeAt 2 0 4 (ConstantInt 32 2) 4]) =
   Some (False,
     asmjsFunction [storeAt 1 0 0 (ConstantInt 32 1) 8, storeAt 2 0 4 (ConstantInt 32 2) 4])"
    by (simp add: run_defs)
qed

text \<open>The theorem at scenario A, whose one produced store has 32 bits.\<close>

theorem width_cap_witness:
  "runOnFunction insertionSort asmjs
     (asmjsFunction
        [storeAt 1 0 0 (ConstantInt 8 0x11) 4, storeAt 2 0 1 (ConstantInt 8 0x22) 1,
         storeAt 3 0 2 (ConstantInt 8 0x33) 2, storeAt 4 0 3 (ConstantInt 8 0x44) 1]) =
   Some (True, asmjsFunction
     [ComputedPtr (BitCastInst (GetElementPtrInst 101 (PointerValue 0) [ConstantIndex 0])),
      ComputedPtr (BitCastInst (BitCastInst (GetElementPtrInst 101 (PointerValue 0) [ConstantIndex 0]))),
      Store \<lparr>storeId = 7,
             pointerOperand =
               BitCastInst (BitCastInst (GetElementPtrInst 101 (PointerValue 0) [ConstantIndex 0])),
             valueOperand = ConstantInt 32 0x44332211, align = 4\<rparr>,
      ComputedPtr (BitCastInst (GetElementPtrInst 103 (PointerValue 0) [ConstantIndex 2]))]) \<and>
   list_all (\<lambda>s. getType (valueOperand s) \<in> {IntegerTy 16, IntegerTy 32})
     (producedStores
        [storeAt 1 0 0 (ConstantInt 8 0x11) 4, storeAt 2 0 1 (ConstantInt 8 0x22) 1,
         storeAt 3 0 2 (ConstantInt 8 0x33) 2, storeAt 4 0 3 (ConstantInt 8 0x44) 1]
        [ComputedPtr (BitCastInst (GetElementPtrInst 101 (PointerValue 0) [ConstantIndex 0])),
         ComputedPtr (BitCastInst (BitCastInst (GetElementPtrInst 101 (PointerValue 0) [ConstantIndex 0]))),
         Store \<lparr>storeId = 7,
             pointerOperand =
               BitCastInst (BitCastInst (GetElementPtrInst 101 (PointerValue 0) [ConstantIndex 0])),
             valueOperand = ConstantInt 32 0x44332211, align = 4\<rparr>,
         ComputedPtr (BitCastInst (GetElementPtrInst 103 (PointerValue 0) [ConstantIndex 2]))])"
proof (rule conjI [OF run_scenarioA])
  have "0 < length (blocks (asmjsFunction
        [storeAt 1 0 0 (ConstantInt 8 0x11) 4, storeAt 2 0 1 (ConstantInt 8 0x22) 1,
         storeAt 3 0 2 (ConstantInt 8 0x33) 2, storeAt 4 0 3 (ConstantInt 8 0x44) 1]))"
    by (simp add: asmjsFunction_def)
  from width_cap [THEN conjunct1, rule_format, OF run_scenarioA, THEN conjunct2, rule_format, OF this]
  show "list_all (\<lambda>s. getType (valueOperand s) \<in> {IntegerTy 16, IntegerTy 32})
     (producedStores
        [storeAt 1 0 0 (ConstantInt 8 0x11) 4, storeAt 2 0 1 (ConstantInt 8 0x22) 1,
         storeAt 3 0 2 (ConstantInt 8 0x33) 2, storeAt 4 0 3 (ConstantInt 8 0x44) 1]
        [ComputedPtr (BitCastInst (GetElementPtrInst 101 (PointerValue 0) [ConstantIndex 0])),
         ComputedPtr (BitCastInst (BitCastInst (GetElementPtrInst 101 (PointerValue 0) [ConstantIndex 0]))),
         Store \<lparr>storeId = 7,
             pointerOperand =
               BitCastInst (BitCastInst (GetElementPtrInst 101 (PointerValue 0) [ConstantIndex 0])),
             valueOperand = ConstantInt 32 0x44332211, align = 4\<rparr>,
         ComputedPtr (BitCastInst (GetElementPtrInst 103 (PointerValue 0) [ConstantIndex 2]))])"
    unfolding list_all_iff by (simp add: asmjsFunction_def asmjs_def)
qed
section \<open>Records of equal offset in a sorted run\<close>

section \<open>A second run of the pass\<close>

subsection \<open>Blocks: skeleton, identities, insertion and erasure\<close>



lemma skel_map_Store: "skel (map Store ss) = map Store ss"
  by (induction ss) (simp_all add: skel_def)

lemma skel_skel: "skel (skel bb) = skel bb"
  by (simp add: skel_def)






















subsection \<open>The builder inserts no store and no instruction with an effect\<close>








subsection \<open>One merge, on the block\<close>




subsection \<open>Sorting and filtering\<close>







subsection \<open>The merged store\<close>









subsection \<open>One pass of the executor, on the block and on the stores of the run\<close>





subsection \<open>The loop of the executor as a recursion over the records\<close>











lemma mergePass_all_skipped:
  "successively (skipPair P d) xs \<Longrightarrow> mergePass P d xs bb = (xs, xs, bb)"
  by (induction xs rule: induct_list012) simp_all

subsection \<open>The sorted run, and the planner on the records of a run\<close>

















subsection \<open>The planner on a run of the block\<close>






subsection \<open>The loop of runOnBasicBlock on a block that the pass has left\<close>














subsection \<open>The run builder, and a second run of the pass\<close>












lemma offset_newRecord: "offset (newRecord P SI off n) = off"
  by (simp add: newRecord_def)







section \<open>Idempotence\<close>









end
